theory Spec2Isabelle
  imports Main
begin

section \<open>Expression trees\<close>

text \<open>
  The four node classes of the repository. \<open>Value\<close> wraps a number and \<open>Variable\<close> a
  name; \<open>Addition\<close> and \<open>Multiplication\<close> are the two subclasses of \<open>Function\<close> and
  carry the field \<open>args\<close>.

  Numbers are unbounded integers here, where JavaScript has doubles. Every integer of
  magnitude at most \<open>2 ^ 53\<close> is a double, and a sum or product of two doubles is exact
  when the true result is such an integer: as long as the numbers of a tree and the
  intermediate results stay in this range, the integer arithmetic below is the arithmetic
  of the code. The properties stated for the code are therefore about structure alone,
  or about small concrete numbers, or carry this bound as a hypothesis; fractions, NaN and
  the infinities are not covered.

  The selector \<open>Value_value\<close> is the field read \<open>(e as Value).value\<close>. The cast is erased at
  run time: on a node of another class JavaScript reads \<open>undefined\<close>, and the arithmetic
  that follows yields NaN. With integers only, \<open>Value_value\<close> is a fixed but unspecified
  number on such a node, and no theorem below says which number it is.
\<close>

datatype expr =
    Value (Value_value: int)
  | Variable string
  | Addition "expr list"
  | Multiplication "expr list"

fun args :: "expr \<Rightarrow> expr list" where
  "args (Addition as) = as"
| "args (Multiplication as) = as"
| "args (Value v) = []"
| "args (Variable x) = []"

text \<open>\<open>Map<Variable, Value>\<close>: the known bindings, from a variable's name to its number.\<close>

type_synonym knowns = "string \<Rightarrow> int option"

datatype error = ArityError

subsection \<open>Results: exceptions and fuel\<close>

text \<open>
  A call either returns (\<open>Inr\<close>) or throws (\<open>Inl\<close>). The recursive methods \<open>simplify\<close>,
  \<open>split\<close> and \<open>groupLikeTerms\<close> call \<open>simplify\<close> on their own results, so they are
  defined with fuel: every method call costs one unit, and \<open>None\<close> means that the fuel
  ran out before the call returned.
\<close>

type_synonym 'a result = "(error + 'a) option"

definition ret :: "'a \<Rightarrow> 'a result" where
  "ret x = Some (Inr x)"

definition lift :: "error + 'a \<Rightarrow> 'a result" where
  "lift r = Some r"

fun bind :: "'a result \<Rightarrow> ('a \<Rightarrow> 'b result) \<Rightarrow> 'b result" where
  "bind None f = None"
| "bind (Some (Inl e)) f = Some (Inl e)"
| "bind (Some (Inr x)) f = f x"

text \<open>A \<open>for\<close> loop that pushes one result per element.\<close>

fun mapM :: "('a \<Rightarrow> 'b result) \<Rightarrow> 'a list \<Rightarrow> 'b list result" where
  "mapM f [] = ret []"
| "mapM f (x # xs) = bind (f x) (\<lambda>y. bind (mapM f xs) (\<lambda>ys. ret (y # ys)))"

text \<open>A \<open>for\<close> loop that updates local variables, here the accumulator \<open>s\<close>.\<close>

fun foldM :: "('s \<Rightarrow> 'a \<Rightarrow> 's result) \<Rightarrow> 's \<Rightarrow> 'a list \<Rightarrow> 's result" where
  "foldM f s [] = ret s"
| "foldM f s (x # xs) = bind (f s x) (\<lambda>s'. foldM f s' xs)"

text \<open>The same for the methods that need no fuel.\<close>

fun bindE :: "error + 'a \<Rightarrow> ('a \<Rightarrow> error + 'b) \<Rightarrow> error + 'b" where
  "bindE (Inl e) f = Inl e"
| "bindE (Inr x) f = f x"

fun sequenceE :: "(error + 'a) list \<Rightarrow> error + 'a list" where
  "sequenceE [] = Inr []"
| "sequenceE (r # rs) = bindE r (\<lambda>y. bindE (sequenceE rs) (\<lambda>ys. Inr (y # ys)))"

subsection \<open>The operator base class\<close>

text \<open>
  Modelled from the spec: the constructor of the base class \<open>Function\<close>, which is not
  among the sources. It validates \<open>minArgs \<le> children.length \<le> maxArgs\<close> and fails with
  an ArityError otherwise; no object is produced then. The argument \<open>node\<close> stands for the
  subclass being constructed; the display symbol and the commutativity flag play no part
  in the methods below and are left out.
\<close>

definition Function_new ::
  "(expr list \<Rightarrow> expr) \<Rightarrow> expr list \<Rightarrow> nat \<Rightarrow> nat \<Rightarrow> error + expr" where
  "Function_new node as minArgs maxArgs =
     (if length as < minArgs \<or> length as > maxArgs then Inl ArityError else Inr (node as))"

text \<open>The constructors of the two subclasses, each with its own \<open>MAX_ALLOWED_ARGS\<close>.\<close>

definition Addition_MAX_ALLOWED_ARGS :: nat where
  "Addition_MAX_ALLOWED_ARGS = 200"

definition Multiplication_MAX_ALLOWED_ARGS :: nat where
  "Multiplication_MAX_ALLOWED_ARGS = 200"

definition Addition_new :: "expr list \<Rightarrow> error + expr" where
  "Addition_new as = Function_new Addition as 2 Addition_MAX_ALLOWED_ARGS"

definition Multiplication_new :: "expr list \<Rightarrow> error + expr" where
  "Multiplication_new as = Function_new Multiplication as 2 Multiplication_MAX_ALLOWED_ARGS"

text \<open>
  The shorthand builders \<open>multiply\<close> and \<open>plus\<close> of \<open>ShorthandFunctions.ts\<close>; the second
  is \<open>plus_sh\<close> here.
\<close>

definition multiply :: "expr list \<Rightarrow> error + expr" where
  "multiply as = Multiplication_new as"

definition plus_sh :: "expr list \<Rightarrow> error + expr" where
  "plus_sh as = Addition_new as"

text \<open>
  Modelled from the spec: \<open>hasUnknowns(knowns)\<close> of the base contract, true if any
  Variable reachable in the subtree is absent from \<open>knowns\<close>.
\<close>

fun hasUnknowns :: "knowns \<Rightarrow> expr \<Rightarrow> bool" where
  "hasUnknowns k (Value v) = False"
| "hasUnknowns k (Variable x) = (k x = None)"
| "hasUnknowns k (Addition as) = list_ex (hasUnknowns k) as"
| "hasUnknowns k (Multiplication as) = list_ex (hasUnknowns k) as"

subsection \<open>The grouping map\<close>

text \<open>
  Modelled from the spec: the \<open>HashMap\<close> of the external data-structures package, a
  mapping keyed by structural equality with \<open>put\<close>, \<open>get\<close>, \<open>has\<close>, \<open>keys\<close> and \<open>size\<close>.
  It is an association list with one entry per key, enumerated in the order of first
  insertion (the spec leaves the enumeration order open). A test \<open>has(k)\<close> followed by
  \<open>get(k)\<close> is one lookup with \<open>HashMap_get\<close>, and a loop over \<open>keys()\<close> that reads
  \<open>get(key)\<close> is a loop over the entries.
\<close>

type_synonym ('k, 'v) HashMap = "('k \<times> 'v) list"

fun HashMap_put :: "('k, 'v) HashMap \<Rightarrow> 'k \<Rightarrow> 'v \<Rightarrow> ('k, 'v) HashMap" where
  "HashMap_put [] k v = [(k, v)]"
| "HashMap_put ((k', v') # m) k v =
     (if k' = k then (k, v) # m else (k', v') # HashMap_put m k v)"

definition HashMap_get :: "('k, 'v) HashMap \<Rightarrow> 'k \<Rightarrow> 'v option" where
  "HashMap_get m k = map_of m k"

section \<open>Differentiation\<close>

text \<open>
  \<open>Addition.derivative\<close> and \<open>Multiplication.derivative\<close>. Each loop fills a fresh array
  index by index, so it is a map over the indices \<open>0, ..., length - 1\<close>; the first call
  that throws ends the method. The derivative of the two leaf classes is not among the
  sources and the spec does not describe it, so it is the parameter \<open>dleaf\<close>.
\<close>

lemma size_nth_args [termination_simp]:
  "i < length as \<Longrightarrow> size (as ! i) < Suc (size_list size as)"
  for as :: "'a::size list"
proof (induction as arbitrary: i)
  case Nil
  then show ?case by simp
next
  case (Cons a as)
  show ?case
  proof (cases i)
    case 0
    then show ?thesis by simp
  next
    case (Suc j)
    with Cons.prems have "j < length as" by simp
    from Cons.IH [OF this] show ?thesis using Suc by simp
  qed
qed

fun derivative :: "(string \<Rightarrow> expr \<Rightarrow> expr) \<Rightarrow> string \<Rightarrow> expr \<Rightarrow> error + expr" where
  "derivative dleaf variable (Value v) = Inr (dleaf variable (Value v))"
| "derivative dleaf variable (Variable x) = Inr (dleaf variable (Variable x))"
| "derivative dleaf variable (Addition as) =
     bindE (sequenceE (map (\<lambda>i. derivative dleaf variable (as ! i)) [0..<length as]))
       Addition_new"
| "derivative dleaf variable (Multiplication as) =
     bindE (sequenceE (map (\<lambda>i.
         bindE (sequenceE (map (\<lambda>j.
             if j = i then derivative dleaf variable (as ! i) else Inr (as ! i))
           [0..<length as]))
         multiply)
       [0..<length as]))
     plus_sh"

section \<open>Splitting and simplification\<close>

text \<open>
  The split result \<open>SplitFunction\<close> pairs the number held by the field \<open>value\<close> with the
  field \<open>expressions\<close>.
\<close>

type_synonym SplitFunction = "int \<times> expr list"

text \<open>
  The full-evaluation loops of \<open>Addition.simplify\<close> and \<open>Multiplication.simplify\<close>:
  \<open>sum += (simplArgs[i].simplify(knowns) as Value).value\<close> from \<open>sum = 0\<close>, and
  \<open>product *= (simplArgs[i].simplify(knowns) as Value).value\<close> from \<open>product = 0\<close>, each
  followed by \<open>new Value(...)\<close>. The argument \<open>simplify_child\<close> is the recursive call
  \<open>simplify(knowns)\<close>.
\<close>

definition Addition_evaluate :: "(expr \<Rightarrow> expr result) \<Rightarrow> expr list \<Rightarrow> expr result" where
  "Addition_evaluate simplify_child simplArgs =
     bind (foldM (\<lambda>sum a. bind (simplify_child a) (\<lambda>r. ret (sum + Value_value r)))
             0 simplArgs)
       (\<lambda>sum. ret (Value sum))"

definition Multiplication_evaluate :: "(expr \<Rightarrow> expr result) \<Rightarrow> expr list \<Rightarrow> expr result" where
  "Multiplication_evaluate simplify_child simplArgs =
     bind (foldM (\<lambda>product a. bind (simplify_child a) (\<lambda>r. ret (product * Value_value r)))
             0 simplArgs)
       (\<lambda>product. ret (Value product))"

text \<open>
  The methods \<open>simplify\<close>, \<open>split\<close> and \<open>groupLikeTerms\<close>. The tests \<open>value.equals(ZERO)\<close>
  and \<open>value.equals(ONE)\<close> compare the number with 0 and 1.

  Modelled from the spec: \<open>Value.simplify\<close> and \<open>Variable.simplify\<close>, the second and
  third equation. A Value is returned as it is; a Variable is replaced by its known Value
  or, when it is unknown, returned as it is.
\<close>

fun simplify :: "nat \<Rightarrow> knowns \<Rightarrow> expr \<Rightarrow> expr result"
  and Addition_split :: "nat \<Rightarrow> knowns \<Rightarrow> expr list \<Rightarrow> SplitFunction result"
  and Multiplication_split :: "nat \<Rightarrow> knowns \<Rightarrow> expr list \<Rightarrow> SplitFunction result"
  and groupLikeTerms :: "nat \<Rightarrow> knowns \<Rightarrow> expr list \<Rightarrow> expr result"
where
  "simplify 0 k e = None"
| "simplify (Suc n) k (Value v) = ret (Value v)"
| "simplify (Suc n) k (Variable x) =
     ret (case k x of Some v \<Rightarrow> Value v | None \<Rightarrow> Variable x)"
| "simplify (Suc n) k (Addition this_args) =
     bind (mapM (\<lambda>arg. case arg of Addition _ \<Rightarrow> ret arg | _ \<Rightarrow> simplify n k arg) this_args)
     (\<lambda>simplArgs.
     bind (lift (Addition_new simplArgs))
     (\<lambda>simplAddition.
     if \<not> hasUnknowns k simplAddition then
       Addition_evaluate (\<lambda>a. simplify n k a) simplArgs
     else
       bind (Addition_split n k (args simplAddition))
       (\<lambda>(splitValue, exprs).
       let groups = foldl (\<lambda>groups arg.
                      case HashMap_get groups arg of
                        None \<Rightarrow> HashMap_put groups arg 1
                      | Some count \<Rightarrow> HashMap_put groups arg (count + 1))
                    [] exprs
       in
       bind (mapM (\<lambda>(expr, count).
               if count = (1::int) then simplify n k expr
               else bind (lift (Multiplication_new [Value count, expr])) (\<lambda>m. simplify n k m))
             groups)
       (\<lambda>groupedArgs.
       if length groupedArgs = 0 then ret (Value splitValue)
       else
         bind (lift (Addition_new
                 (if splitValue \<noteq> 0 then groupedArgs @ [Value splitValue] else groupedArgs)))
           (\<lambda>a. groupLikeTerms n k (args a))))))"
| "simplify (Suc n) k (Multiplication this_args) =
     bind (mapM (\<lambda>arg. case arg of Multiplication _ \<Rightarrow> ret arg | _ \<Rightarrow> simplify n k arg)
             this_args)
     (\<lambda>simplArgs.
     bind (lift (Multiplication_new simplArgs))
     (\<lambda>simplMult.
     if \<not> hasUnknowns k simplMult then
       Multiplication_evaluate (\<lambda>a. simplify n k a) simplArgs
     else
       bind (Multiplication_split n k (args simplMult))
       (\<lambda>(splitValue, exprs).
       if splitValue = 0 then ret (Value 0)
       else if length exprs = 0 then ret (Value splitValue)
       else if length exprs = 1 then
         (if splitValue = 1 then ret (exprs ! 0)
          else lift (Multiplication_new (exprs @ [Value splitValue])))
       else
         (if splitValue = 1 then lift (Multiplication_new exprs)
          else lift (Multiplication_new (exprs @ [Value splitValue]))))))"
| "Addition_split 0 k this_args = None"
| "Addition_split (Suc n) k this_args =
     foldM (\<lambda>(numericalResult, symbolicResult) arg.
         case arg of
           Value v \<Rightarrow> ret (numericalResult + v, symbolicResult)
         | Addition as \<Rightarrow>
             bind (Addition_split n k as)
               (\<lambda>(nextValue, nextExprs).
                  ret (numericalResult + nextValue, symbolicResult @ nextExprs))
         | _ \<Rightarrow> bind (simplify n k arg) (\<lambda>s. ret (numericalResult, symbolicResult @ [s])))
       (0, []) this_args"
| "Multiplication_split 0 k this_args = None"
| "Multiplication_split (Suc n) k this_args =
     foldM (\<lambda>(numericalResult, symbolicResult) arg.
         case arg of
           Value v \<Rightarrow> ret (numericalResult * v, symbolicResult)
         | Multiplication as \<Rightarrow>
             bind (Multiplication_split n k as)
               (\<lambda>(nextValue, nextExprs).
                  ret (numericalResult * nextValue, symbolicResult @ nextExprs))
         | _ \<Rightarrow> bind (simplify n k arg) (\<lambda>s. ret (numericalResult, symbolicResult @ [s])))
       (1, []) this_args"
| "groupLikeTerms 0 k this_args = None"
| "groupLikeTerms (Suc n) k this_args =
     bind (foldM (\<lambda>(groups, otherExprs) arg.
             case arg of
               Multiplication as \<Rightarrow>
                 bind (Multiplication_split n k as)
                   (\<lambda>(splitValue, exprs).
                      ret (case HashMap_get groups exprs of
                             None \<Rightarrow> HashMap_put groups exprs splitValue
                           | Some oldValue \<Rightarrow> HashMap_put groups exprs (splitValue + oldValue),
                           otherExprs))
             | _ \<Rightarrow> ret (groups, otherExprs @ [arg]))
           ([], []) this_args)
     (\<lambda>(groups, otherExprs).
     bind (foldM (\<lambda>exprsOut (entry, v).
             if v = 0 then ret exprsOut
             else if v = 1 then
               bind (lift (Multiplication_new entry)) (\<lambda>m. ret (exprsOut @ [m]))
             else
               bind (lift (Multiplication_new (Value v # entry))) (\<lambda>m. ret (exprsOut @ [m])))
           [] groups)
     (\<lambda>exprsOut. lift (Addition_new (exprsOut @ otherExprs))))"

section \<open>Notions used by the properties\<close>

text \<open>The \<open>instanceof\<close> tests of the source, as predicates.\<close>

definition isValue :: "expr \<Rightarrow> bool" where
  "isValue e = (case e of Value _ \<Rightarrow> True | _ \<Rightarrow> False)"

definition isAddition :: "expr \<Rightarrow> bool" where
  "isAddition e = (case e of Addition _ \<Rightarrow> True | _ \<Rightarrow> False)"

definition isMultiplication :: "expr \<Rightarrow> bool" where
  "isMultiplication e = (case e of Multiplication _ \<Rightarrow> True | _ \<Rightarrow> False)"

text \<open>
  The children that a split simplifies: those that are neither a Value nor a node of the
  splitting class, with nested nodes of that class flattened, in order.
\<close>

fun Addition_operands :: "expr list \<Rightarrow> expr list" where
  "Addition_operands [] = []"
| "Addition_operands (Value v # as) = Addition_operands as"
| "Addition_operands (Addition bs # as) = Addition_operands bs @ Addition_operands as"
| "Addition_operands (a # as) = a # Addition_operands as"

fun Multiplication_operands :: "expr list \<Rightarrow> expr list" where
  "Multiplication_operands [] = []"
| "Multiplication_operands (Value v # as) = Multiplication_operands as"
| "Multiplication_operands (Multiplication bs # as) =
     Multiplication_operands bs @ Multiplication_operands as"
| "Multiplication_operands (a # as) = a # Multiplication_operands as"


text \<open>
  Modelled from the spec: the value of an expression under an assignment of numbers to
  the variables. Two expressions are semantically equal when they have the same value
  under every assignment.
\<close>

fun sem_value :: "(string \<Rightarrow> int) \<Rightarrow> expr \<Rightarrow> int" where
  "sem_value env (Value v) = v"
| "sem_value env (Variable x) = env x"
| "sem_value env (Addition as) = sum_list (map (sem_value env) as)"
| "sem_value env (Multiplication as) = prod_list (map (sem_value env) as)"

section \<open>Proof infrastructure\<close>

subsection \<open>Names for the loop bodies\<close>

text \<open>
  The bodies of the loops and the tails of \<open>simplify\<close> get names of their own, and each
  method is shown to be the composition of its named parts. Nothing is added to the model.
\<close>

definition Addition_simplify_arg :: "nat \<Rightarrow> knowns \<Rightarrow> expr \<Rightarrow> expr result" where
  "Addition_simplify_arg n k arg = (case arg of Addition _ \<Rightarrow> ret arg | _ \<Rightarrow> simplify n k arg)"

definition Multiplication_simplify_arg :: "nat \<Rightarrow> knowns \<Rightarrow> expr \<Rightarrow> expr result" where
  "Multiplication_simplify_arg n k arg =
     (case arg of Multiplication _ \<Rightarrow> ret arg | _ \<Rightarrow> simplify n k arg)"

definition Addition_group :: "nat \<Rightarrow> knowns \<Rightarrow> SplitFunction \<Rightarrow> expr result" where
  "Addition_group n k =
     (\<lambda>(splitValue, exprs).
       let groups = foldl (\<lambda>groups arg.
                      case HashMap_get groups arg of
                        None \<Rightarrow> HashMap_put groups arg 1
                      | Some count \<Rightarrow> HashMap_put groups arg (count + 1))
                    [] exprs
       in
       bind (mapM (\<lambda>(expr, count).
               if count = (1::int) then simplify n k expr
               else bind (lift (Multiplication_new [Value count, expr])) (\<lambda>m. simplify n k m))
             groups)
       (\<lambda>groupedArgs.
       if length groupedArgs = 0 then ret (Value splitValue)
       else
         bind (lift (Addition_new
                 (if splitValue \<noteq> 0 then groupedArgs @ [Value splitValue] else groupedArgs)))
           (\<lambda>a. groupLikeTerms n k (args a))))"

definition Multiplication_finish :: "SplitFunction \<Rightarrow> expr result" where
  "Multiplication_finish =
     (\<lambda>(splitValue, exprs).
       if splitValue = 0 then ret (Value 0)
       else if length exprs = 0 then ret (Value splitValue)
       else if length exprs = 1 then
         (if splitValue = 1 then ret (exprs ! 0)
          else lift (Multiplication_new (exprs @ [Value splitValue])))
       else
         (if splitValue = 1 then lift (Multiplication_new exprs)
          else lift (Multiplication_new (exprs @ [Value splitValue]))))"

definition Addition_split_step :: "nat \<Rightarrow> knowns \<Rightarrow> SplitFunction \<Rightarrow> expr \<Rightarrow> SplitFunction result" where
  "Addition_split_step n k =
     (\<lambda>(numericalResult, symbolicResult) arg.
         case arg of
           Value v \<Rightarrow> ret (numericalResult + v, symbolicResult)
         | Addition as \<Rightarrow>
             bind (Addition_split n k as)
               (\<lambda>(nextValue, nextExprs).
                  ret (numericalResult + nextValue, symbolicResult @ nextExprs))
         | _ \<Rightarrow> bind (simplify n k arg) (\<lambda>s. ret (numericalResult, symbolicResult @ [s])))"

definition Multiplication_split_step :: "nat \<Rightarrow> knowns \<Rightarrow> SplitFunction \<Rightarrow> expr \<Rightarrow> SplitFunction result" where
  "Multiplication_split_step n k =
     (\<lambda>(numericalResult, symbolicResult) arg.
         case arg of
           Value v \<Rightarrow> ret (numericalResult * v, symbolicResult)
         | Multiplication as \<Rightarrow>
             bind (Multiplication_split n k as)
               (\<lambda>(nextValue, nextExprs).
                  ret (numericalResult * nextValue, symbolicResult @ nextExprs))
         | _ \<Rightarrow> bind (simplify n k arg) (\<lambda>s. ret (numericalResult, symbolicResult @ [s])))"

lemma simplify_Addition_unfold:
  "simplify (Suc n) k (Addition as) =
     bind (mapM (Addition_simplify_arg n k) as) (\<lambda>simplArgs.
     bind (lift (Addition_new simplArgs)) (\<lambda>simplAddition.
     if \<not> hasUnknowns k simplAddition then Addition_evaluate (simplify n k) simplArgs
     else bind (Addition_split n k (args simplAddition)) (Addition_group n k)))"
  unfolding simplify.simps Addition_simplify_arg_def Addition_group_def by (rule refl)

lemma simplify_Multiplication_unfold:
  "simplify (Suc n) k (Multiplication as) =
     bind (mapM (Multiplication_simplify_arg n k) as) (\<lambda>simplArgs.
     bind (lift (Multiplication_new simplArgs)) (\<lambda>simplMult.
     if \<not> hasUnknowns k simplMult then Multiplication_evaluate (simplify n k) simplArgs
     else bind (Multiplication_split n k (args simplMult)) Multiplication_finish))"
  unfolding simplify.simps Multiplication_simplify_arg_def Multiplication_finish_def by (rule refl)

lemma Addition_split_unfold:
  "Addition_split (Suc n) k as = foldM (Addition_split_step n k) (0, []) as"
  unfolding Addition_split.simps Addition_split_step_def by (rule refl)

lemma Multiplication_split_unfold:
  "Multiplication_split (Suc n) k as = foldM (Multiplication_split_step n k) (1, []) as"
  unfolding Multiplication_split.simps Multiplication_split_step_def by (rule refl)


subsection \<open>Returning runs\<close>

lemma bind_Inr_iff:
  "bind m f = Some (Inr r) \<longleftrightarrow> (\<exists>x. m = Some (Inr x) \<and> f x = Some (Inr r))"
proof (cases m)
  case None
  then show ?thesis by simp
next
  case (Some s)
  then show ?thesis by (cases s) simp_all
qed

lemma bind_InrE:
  assumes "bind m f = Some (Inr r)"
  obtains x where "m = Some (Inr x)" and "f x = Some (Inr r)"
  using assms by (auto simp: bind_Inr_iff)

lemma mapM_Inr_set:
  "mapM f xs = Some (Inr ys) \<Longrightarrow> y \<in> set ys \<Longrightarrow> \<exists>x\<in>set xs. f x = Some (Inr y)"
proof (induction xs arbitrary: ys)
  case Nil
  then show ?case by (simp add: ret_def)
next
  case (Cons x xs)
  from Cons.prems(1) obtain z zs where
    z: "f x = Some (Inr z)" and zs: "mapM f xs = Some (Inr zs)" and eq: "ys = z # zs"
    by (auto simp: bind_Inr_iff ret_def)
  show ?case
  proof (cases "y = z")
    case True
    with z show ?thesis by simp
  next
    case False
    with Cons.prems(2) eq have "y \<in> set zs" by simp
    from Cons.IH [OF zs this] show ?thesis by auto
  qed
qed

lemma Addition_new_Inr: "Addition_new as = Inr a \<Longrightarrow> a = Addition as"
  by (simp add: Addition_new_def Function_new_def split: if_splits)

lemma Multiplication_new_Inr: "Multiplication_new as = Inr a \<Longrightarrow> a = Multiplication as"
  by (simp add: Multiplication_new_def Function_new_def split: if_splits)

lemma Addition_evaluate_Inr: "Addition_evaluate f as = Some (Inr r) \<Longrightarrow> \<exists>v. r = Value v"
  by (auto simp: Addition_evaluate_def bind_Inr_iff ret_def)

lemma Multiplication_evaluate_Inr:
  "Multiplication_evaluate f as = Some (Inr r) \<Longrightarrow> \<exists>v. r = Value v"
  by (auto simp: Multiplication_evaluate_def bind_Inr_iff ret_def)

lemma Addition_simplify_arg_known:
  assumes IH: "\<And>e r. \<not> hasUnknowns k e \<Longrightarrow> simplify n k e = Some (Inr r) \<Longrightarrow> \<exists>v. r = Value v"
    and x: "\<not> hasUnknowns k x" and y: "Addition_simplify_arg n k x = Some (Inr y)"
  shows "\<not> hasUnknowns k y"
proof (cases "\<exists>bs. x = Addition bs")
  case True
  with x y show ?thesis by (auto simp: Addition_simplify_arg_def ret_def)
next
  case False
  with y have "simplify n k x = Some (Inr y)"
    by (cases x) (simp_all add: Addition_simplify_arg_def)
  from IH [OF x this] show ?thesis by auto
qed

lemma Multiplication_simplify_arg_known:
  assumes IH: "\<And>e r. \<not> hasUnknowns k e \<Longrightarrow> simplify n k e = Some (Inr r) \<Longrightarrow> \<exists>v. r = Value v"
    and x: "\<not> hasUnknowns k x" and y: "Multiplication_simplify_arg n k x = Some (Inr y)"
  shows "\<not> hasUnknowns k y"
proof (cases "\<exists>bs. x = Multiplication bs")
  case True
  with x y show ?thesis by (auto simp: Multiplication_simplify_arg_def ret_def)
next
  case False
  with y have "simplify n k x = Some (Inr y)"
    by (cases x) (simp_all add: Multiplication_simplify_arg_def)
  from IH [OF x this] show ?thesis by auto
qed

lemma known_simplify_Value:
  "\<not> hasUnknowns k e \<Longrightarrow> simplify n k e = Some (Inr r) \<Longrightarrow> \<exists>v. r = Value v"
proof (induction n arbitrary: e r)
  case 0
  then show ?case by simp
next
  case (Suc n)
  show ?case
  proof (cases e)
    case (Value v)
    with Suc.prems show ?thesis by (auto simp: ret_def)
  next
    case (Variable x)
    with Suc.prems show ?thesis by (auto simp: ret_def)
  next
    case (Addition as)
    from Suc.prems(2) [unfolded Addition simplify_Addition_unfold]
    obtain simplArgs a where
      m: "mapM (Addition_simplify_arg n k) as = Some (Inr simplArgs)" and
      a: "lift (Addition_new simplArgs) = Some (Inr a)" and
      rest: "(if \<not> hasUnknowns k a then Addition_evaluate (simplify n k) simplArgs
              else bind (Addition_split n k (args a)) (Addition_group n k)) = Some (Inr r)"
      by (elim bind_InrE)
    from a have a': "a = Addition simplArgs" by (simp add: lift_def Addition_new_Inr)
    have "\<not> hasUnknowns k y" if "y \<in> set simplArgs" for y
    proof -
      from mapM_Inr_set [OF m that] obtain x where
        x: "x \<in> set as" and fx: "Addition_simplify_arg n k x = Some (Inr y)"
        by auto
      from x Suc.prems(1) Addition have "\<not> hasUnknowns k x" by (simp add: list_ex_iff)
      from Addition_simplify_arg_known [OF Suc.IH this fx] show ?thesis .
    qed
    then have "\<not> hasUnknowns k a" by (simp add: a' list_ex_iff)
    with rest have "Addition_evaluate (simplify n k) simplArgs = Some (Inr r)" by simp
    then show ?thesis by (rule Addition_evaluate_Inr)
  next
    case (Multiplication as)
    from Suc.prems(2) [unfolded Multiplication simplify_Multiplication_unfold]
    obtain simplArgs a where
      m: "mapM (Multiplication_simplify_arg n k) as = Some (Inr simplArgs)" and
      a: "lift (Multiplication_new simplArgs) = Some (Inr a)" and
      rest: "(if \<not> hasUnknowns k a then Multiplication_evaluate (simplify n k) simplArgs
              else bind (Multiplication_split n k (args a)) Multiplication_finish) = Some (Inr r)"
      by (elim bind_InrE)
    from a have a': "a = Multiplication simplArgs" by (simp add: lift_def Multiplication_new_Inr)
    have "\<not> hasUnknowns k y" if "y \<in> set simplArgs" for y
    proof -
      from mapM_Inr_set [OF m that] obtain x where
        x: "x \<in> set as" and fx: "Multiplication_simplify_arg n k x = Some (Inr y)"
        by auto
      from x Suc.prems(1) Multiplication have "\<not> hasUnknowns k x" by (simp add: list_ex_iff)
      from Multiplication_simplify_arg_known [OF Suc.IH this fx] show ?thesis .
    qed
    then have "\<not> hasUnknowns k a" by (simp add: a' list_ex_iff)
    with rest have "Multiplication_evaluate (simplify n k) simplArgs = Some (Inr r)" by simp
    then show ?thesis by (rule Multiplication_evaluate_Inr)
  qed
qed

subsection \<open>The shape of what simplify returns\<close>

lemma bind_ret [simp]: "bind (ret x) f = f x"
  by (simp add: ret_def)

lemma bind_assoc: "bind (bind m f) g = bind m (\<lambda>x. bind (f x) g)"
proof (cases m)
  case None
  then show ?thesis by simp
next
  case (Some s)
  then show ?thesis by (cases s) simp_all
qed

lemma result_cases [case_names Timeout Throws Returns]:
  obtains "m = None" | e where "m = Some (Inl e)" | x where "m = Some (Inr x)"
proof (cases m)
  case None
  then show ?thesis by (rule that(1))
next
  case (Some s)
  then show ?thesis by (cases s) (auto intro: that)
qed

lemma groupLikeTerms_Inr:
  assumes "groupLikeTerms n k as = Some (Inr r)"
  shows "\<exists>bs. r = Addition bs"
proof (cases n)
  case 0
  with assms show ?thesis by simp
next
  case (Suc n')
  from assms [unfolded Suc groupLikeTerms.simps] show ?thesis
    apply -
    apply (erule bind_InrE)
    apply (simp only: split_paired_all prod.case)
    apply (erule bind_InrE)
    apply (auto simp: lift_def dest: Addition_new_Inr)
    done
qed

lemma Addition_group_Inr:
  assumes "Addition_group n k sa = Some (Inr r)"
  shows "(\<exists>v. r = Value v) \<or> (\<exists>bs. r = Addition bs)"
proof -
  obtain splitValue exprs where sa: "sa = (splitValue, exprs)" by (cases sa)
  from assms [unfolded sa Addition_group_def prod.case Let_def]
  obtain groupedArgs where
    g: "(if length groupedArgs = 0 then ret (Value splitValue)
      else bind (lift (Addition_new
                 (if splitValue \<noteq> 0 then groupedArgs @ [Value splitValue] else groupedArgs)))
           (\<lambda>a. groupLikeTerms n k (args a))) = Some (Inr r)"
    by (elim bind_InrE)
  show ?thesis
  proof (cases "length groupedArgs = 0")
    case True
    with g show ?thesis by (auto simp: ret_def)
  next
    case False
    with g obtain a where "groupLikeTerms n k (args a) = Some (Inr r)"
      by (auto elim: bind_InrE)
    from groupLikeTerms_Inr [OF this] show ?thesis by simp
  qed
qed

lemma simplify_Addition_Inr:
  assumes "simplify n k (Addition as) = Some (Inr r)"
  shows "(\<exists>v. r = Value v) \<or> (\<exists>bs. r = Addition bs)"
proof (cases n)
  case 0
  with assms show ?thesis by simp
next
  case (Suc n')
  from assms [unfolded Suc simplify_Addition_unfold]
  obtain simplArgs a where
    rest: "(if \<not> hasUnknowns k a then Addition_evaluate (simplify n' k) simplArgs
            else bind (Addition_split n' k (args a)) (Addition_group n' k)) = Some (Inr r)"
    by (elim bind_InrE)
  show ?thesis
  proof (cases "hasUnknowns k a")
    case False
    with rest show ?thesis by (auto dest: Addition_evaluate_Inr)
  next
    case True
    with rest obtain sa where "Addition_group n' k sa = Some (Inr r)"
      by (auto elim: bind_InrE)
    then show ?thesis by (rule Addition_group_Inr)
  qed
qed

lemma simplify_not_Multiplication:
  assumes "simplify n k a = Some (Inr r)" and "\<forall>ms. a \<noteq> Multiplication ms"
  shows "\<forall>ms. r \<noteq> Multiplication ms"
proof (cases n)
  case 0
  with assms show ?thesis by simp
next
  case (Suc n')
  show ?thesis
  proof (cases a)
    case (Value v)
    with assms Suc show ?thesis by (auto simp: ret_def)
  next
    case (Variable x)
    with assms Suc show ?thesis by (auto simp: ret_def split: option.splits)
  next
    case (Addition as)
    with assms(1) simplify_Addition_Inr show ?thesis by blast
  next
    case (Multiplication ms)
    with assms(2) show ?thesis by simp
  qed
qed

subsection \<open>Splitting, one child at a time\<close>

text \<open>
  The accumulators of the split loops can be taken out of the loop. For the totals this is
  a fact of the integer arithmetic (it re-brackets the sum or the product); it serves the
  results on the residue, which use no law of arithmetic, and the results on the totals
  that carry the bound on the numbers.
\<close>

lemma Addition_split_step_simps:
  "Addition_split_step n k (t, r) (Value v) = ret (t + v, r)"
  "Addition_split_step n k (t, r) (Addition bs) =
     bind (Addition_split n k bs) (\<lambda>(nextValue, nextExprs). ret (t + nextValue, r @ nextExprs))"
  "Addition_split_step n k (t, r) (Variable x) =
     bind (simplify n k (Variable x)) (\<lambda>s. ret (t, r @ [s]))"
  "Addition_split_step n k (t, r) (Multiplication ms) =
     bind (simplify n k (Multiplication ms)) (\<lambda>s. ret (t, r @ [s]))"
  by (simp_all add: Addition_split_step_def)

lemma Addition_split_step_acc:
  "foldM (Addition_split_step n k) (t0, r0) as =
     bind (foldM (Addition_split_step n k) (0, []) as) (\<lambda>(t, rs). ret (t0 + t, r0 @ rs))"
proof (induction as arbitrary: t0 r0)
  case Nil
  show ?case by simp
next
  case (Cons a as)
  let ?R = "foldM (Addition_split_step n k) (0, []) as"
  have tail: "foldM (Addition_split_step n k) (t1, r1) as =
      bind (foldM (Addition_split_step n k) (t2, r2) as) (\<lambda>(t, rs). ret (t0 + t, r0 @ rs))"
    if "t1 = t0 + t2" and "r1 = r0 @ r2" for t1 r1 t2 r2
  proof -
    have "foldM (Addition_split_step n k) (t1, r1) as =
        bind ?R (\<lambda>(t, rs). ret (t1 + t, r1 @ rs))"
      by (rule Cons.IH)
    moreover have "foldM (Addition_split_step n k) (t2, r2) as =
        bind ?R (\<lambda>(t, rs). ret (t2 + t, r2 @ rs))"
      by (rule Cons.IH)
    ultimately show ?thesis
      using that by (cases ?R rule: result_cases) (auto simp: add.assoc)
  qed
  show ?case
  proof (cases a)
    case (Value v)
    then show ?thesis by (simp add: Addition_split_step_simps tail)
  next
    case (Variable x)
    then show ?thesis
      by (cases "simplify n k a" rule: result_cases) (simp_all add: Addition_split_step_simps tail)
  next
    case (Addition bs)
    then show ?thesis
      by (cases "Addition_split n k bs" rule: result_cases)
        (auto simp: Addition_split_step_simps tail)
  next
    case (Multiplication ms)
    then show ?thesis
      by (cases "simplify n k a" rule: result_cases) (simp_all add: Addition_split_step_simps tail)
  qed
qed

lemma Addition_split_Nil: "Addition_split (Suc n) k [] = ret (0, [])"
  by (simp add: Addition_split_unfold)

lemma Addition_split_Value:
  "Addition_split (Suc n) k (Value v # as) =
     bind (Addition_split (Suc n) k as) (\<lambda>(total, residue). ret (v + total, residue))"
  unfolding Addition_split_unfold
  by (simp add: Addition_split_step_simps Addition_split_step_acc [of n k v "[]"])

lemma Addition_split_Addition:
  "Addition_split (Suc n) k (Addition bs # as) =
     bind (Addition_split n k bs) (\<lambda>(t1, r1).
       bind (Addition_split (Suc n) k as) (\<lambda>(t2, r2). ret (t1 + t2, r1 @ r2)))"
proof (cases "Addition_split n k bs" rule: result_cases)
  case Timeout
  then show ?thesis by (simp add: Addition_split_unfold Addition_split_step_simps)
next
  case (Throws e)
  then show ?thesis by (simp add: Addition_split_unfold Addition_split_step_simps)
next
  case (Returns x)
  obtain t1 r1 where x: "x = (t1, r1)" by (cases x)
  show ?thesis
    unfolding Addition_split_unfold
    by (simp add: Returns x Addition_split_step_simps Addition_split_step_acc [of n k t1 r1])
qed

lemma Addition_split_other:
  assumes "a = Variable x \<or> a = Multiplication ms"
  shows "Addition_split (Suc n) k (a # as) =
     bind (simplify n k a) (\<lambda>s.
       bind (Addition_split (Suc n) k as) (\<lambda>(total, residue). ret (total, s # residue)))"
proof (cases "simplify n k a" rule: result_cases)
  case Timeout
  with assms show ?thesis by (auto simp: Addition_split_unfold Addition_split_step_simps)
next
  case (Throws e)
  with assms show ?thesis by (auto simp: Addition_split_unfold Addition_split_step_simps)
next
  case (Returns s)
  with assms show ?thesis
    unfolding Addition_split_unfold
    by (auto simp: Addition_split_step_simps Addition_split_step_acc [of n k 0 "[s]"])
qed

lemma Multiplication_split_step_simps:
  "Multiplication_split_step n k (t, r) (Value v) = ret (t * v, r)"
  "Multiplication_split_step n k (t, r) (Multiplication bs) =
     bind (Multiplication_split n k bs) (\<lambda>(nextValue, nextExprs). ret (t * nextValue, r @ nextExprs))"
  "Multiplication_split_step n k (t, r) (Variable x) =
     bind (simplify n k (Variable x)) (\<lambda>s. ret (t, r @ [s]))"
  "Multiplication_split_step n k (t, r) (Addition ms) =
     bind (simplify n k (Addition ms)) (\<lambda>s. ret (t, r @ [s]))"
  by (simp_all add: Multiplication_split_step_def)

lemma Multiplication_split_step_acc:
  "foldM (Multiplication_split_step n k) (t0, r0) as =
     bind (foldM (Multiplication_split_step n k) (1, []) as) (\<lambda>(t, rs). ret (t0 * t, r0 @ rs))"
proof (induction as arbitrary: t0 r0)
  case Nil
  show ?case by simp
next
  case (Cons a as)
  let ?R = "foldM (Multiplication_split_step n k) (1, []) as"
  have tail: "foldM (Multiplication_split_step n k) (t1, r1) as =
      bind (foldM (Multiplication_split_step n k) (t2, r2) as) (\<lambda>(t, rs). ret (t0 * t, r0 @ rs))"
    if "t1 = t0 * t2" and "r1 = r0 @ r2" for t1 r1 t2 r2
  proof -
    have "foldM (Multiplication_split_step n k) (t1, r1) as =
        bind ?R (\<lambda>(t, rs). ret (t1 * t, r1 @ rs))"
      by (rule Cons.IH)
    moreover have "foldM (Multiplication_split_step n k) (t2, r2) as =
        bind ?R (\<lambda>(t, rs). ret (t2 * t, r2 @ rs))"
      by (rule Cons.IH)
    ultimately show ?thesis
      using that by (cases ?R rule: result_cases) (auto simp: mult.assoc)
  qed
  show ?case
  proof (cases a)
    case (Value v)
    then show ?thesis by (simp add: Multiplication_split_step_simps tail)
  next
    case (Variable x)
    then show ?thesis
      by (cases "simplify n k a" rule: result_cases) (simp_all add: Multiplication_split_step_simps tail)
  next
    case (Multiplication bs)
    then show ?thesis
      by (cases "Multiplication_split n k bs" rule: result_cases)
        (auto simp: Multiplication_split_step_simps tail)
  next
    case (Addition ms)
    then show ?thesis
      by (cases "simplify n k a" rule: result_cases) (simp_all add: Multiplication_split_step_simps tail)
  qed
qed

lemma Multiplication_split_Nil: "Multiplication_split (Suc n) k [] = ret (1, [])"
  by (simp add: Multiplication_split_unfold)

lemma Multiplication_split_Value:
  "Multiplication_split (Suc n) k (Value v # as) =
     bind (Multiplication_split (Suc n) k as) (\<lambda>(total, residue). ret (v * total, residue))"
  unfolding Multiplication_split_unfold
  by (simp add: Multiplication_split_step_simps Multiplication_split_step_acc [of n k v "[]"])

lemma Multiplication_split_Multiplication:
  "Multiplication_split (Suc n) k (Multiplication bs # as) =
     bind (Multiplication_split n k bs) (\<lambda>(t1, r1).
       bind (Multiplication_split (Suc n) k as) (\<lambda>(t2, r2). ret (t1 * t2, r1 @ r2)))"
proof (cases "Multiplication_split n k bs" rule: result_cases)
  case Timeout
  then show ?thesis by (simp add: Multiplication_split_unfold Multiplication_split_step_simps)
next
  case (Throws e)
  then show ?thesis by (simp add: Multiplication_split_unfold Multiplication_split_step_simps)
next
  case (Returns x)
  obtain t1 r1 where x: "x = (t1, r1)" by (cases x)
  show ?thesis
    unfolding Multiplication_split_unfold
    by (simp add: Returns x Multiplication_split_step_simps Multiplication_split_step_acc [of n k t1 r1])
qed

lemma Multiplication_split_other:
  assumes "a = Variable x \<or> a = Addition ms"
  shows "Multiplication_split (Suc n) k (a # as) =
     bind (simplify n k a) (\<lambda>s.
       bind (Multiplication_split (Suc n) k as) (\<lambda>(total, residue). ret (total, s # residue)))"
proof (cases "simplify n k a" rule: result_cases)
  case Timeout
  with assms show ?thesis by (auto simp: Multiplication_split_unfold Multiplication_split_step_simps)
next
  case (Throws e)
  with assms show ?thesis by (auto simp: Multiplication_split_unfold Multiplication_split_step_simps)
next
  case (Returns s)
  with assms show ?thesis
    unfolding Multiplication_split_unfold
    by (auto simp: Multiplication_split_step_simps Multiplication_split_step_acc [of n k 1 "[s]"])
qed

subsection \<open>Where the residue of a split comes from\<close>

lemma Addition_split_residue:
  "Addition_split n k as = Some (Inr (t, rs)) \<Longrightarrow>
     list_all2 (\<lambda>a r. \<exists>m. simplify m k a = Some (Inr r)) (Addition_operands as) rs"
proof (induction n arbitrary: as t rs)
  case 0
  then show ?case by simp
next
  case (Suc n)
  note outer = Suc.IH
  from Suc.prems show ?case
  proof (induction as arbitrary: t rs)
    case Nil
    then show ?case by (simp add: Addition_split_Nil ret_def)
  next
    case (Cons a as)
    show ?case
    proof (cases a)
      case (Value v)
      from Cons.prems [unfolded Value Addition_split_Value]
      obtain t' where "Addition_split (Suc n) k as = Some (Inr (t', rs))"
        by (auto elim!: bind_InrE simp: ret_def)
      from Cons.IH [OF this] show ?thesis by (simp add: Value)
    next
      case (Addition bs)
      from Cons.prems [unfolded Addition Addition_split_Addition]
      obtain t1 r1 t2 r2 where
        1: "Addition_split n k bs = Some (Inr (t1, r1))" and
        2: "Addition_split (Suc n) k as = Some (Inr (t2, r2))" and rs: "rs = r1 @ r2"
        by (auto elim!: bind_InrE simp: ret_def)
      from outer [OF 1] Cons.IH [OF 2] show ?thesis
        by (simp add: Addition rs list_all2_appendI)
    next
      case (Variable x)
      from Cons.prems [unfolded Addition_split_other [of a x, OF disjI1, OF Variable]]
      obtain s t' rs' where
        1: "simplify n k a = Some (Inr s)" and
        2: "Addition_split (Suc n) k as = Some (Inr (t', rs'))" and rs: "rs = s # rs'"
        by (auto elim!: bind_InrE simp: ret_def)
      from 1 Cons.IH [OF 2] show ?thesis
        by (auto simp: Variable rs)
    next
      case (Multiplication ms)
      from Cons.prems [unfolded Addition_split_other [of a _ ms, OF disjI2, OF Multiplication]]
      obtain s t' rs' where
        1: "simplify n k a = Some (Inr s)" and
        2: "Addition_split (Suc n) k as = Some (Inr (t', rs'))" and rs: "rs = s # rs'"
        by (auto elim!: bind_InrE simp: ret_def)
      from 1 Cons.IH [OF 2] show ?thesis
        by (auto simp: Multiplication rs)
    qed
  qed
qed

lemma Multiplication_split_residue:
  "Multiplication_split n k as = Some (Inr (t, rs)) \<Longrightarrow>
     list_all2 (\<lambda>a r. \<exists>m. simplify m k a = Some (Inr r)) (Multiplication_operands as) rs"
proof (induction n arbitrary: as t rs)
  case 0
  then show ?case by simp
next
  case (Suc n)
  note outer = Suc.IH
  from Suc.prems show ?case
  proof (induction as arbitrary: t rs)
    case Nil
    then show ?case by (simp add: Multiplication_split_Nil ret_def)
  next
    case (Cons a as)
    show ?case
    proof (cases a)
      case (Value v)
      from Cons.prems [unfolded Value Multiplication_split_Value]
      obtain t' where "Multiplication_split (Suc n) k as = Some (Inr (t', rs))"
        by (auto elim!: bind_InrE simp: ret_def)
      from Cons.IH [OF this] show ?thesis by (simp add: Value)
    next
      case (Multiplication bs)
      from Cons.prems [unfolded Multiplication Multiplication_split_Multiplication]
      obtain t1 r1 t2 r2 where
        1: "Multiplication_split n k bs = Some (Inr (t1, r1))" and
        2: "Multiplication_split (Suc n) k as = Some (Inr (t2, r2))" and rs: "rs = r1 @ r2"
        by (auto elim!: bind_InrE simp: ret_def)
      from outer [OF 1] Cons.IH [OF 2] show ?thesis
        by (simp add: Multiplication rs list_all2_appendI)
    next
      case (Variable x)
      from Cons.prems [unfolded Multiplication_split_other [of a x, OF disjI1, OF Variable]]
      obtain s t' rs' where
        1: "simplify n k a = Some (Inr s)" and
        2: "Multiplication_split (Suc n) k as = Some (Inr (t', rs'))" and rs: "rs = s # rs'"
        by (auto elim!: bind_InrE simp: ret_def)
      from 1 Cons.IH [OF 2] show ?thesis
        by (auto simp: Variable rs)
    next
      case (Addition ms)
      from Cons.prems [unfolded Multiplication_split_other [of a _ ms, OF disjI2, OF Addition]]
      obtain s t' rs' where
        1: "simplify n k a = Some (Inr s)" and
        2: "Multiplication_split (Suc n) k as = Some (Inr (t', rs'))" and rs: "rs = s # rs'"
        by (auto elim!: bind_InrE simp: ret_def)
      from 1 Cons.IH [OF 2] show ?thesis
        by (auto simp: Addition rs)
    qed
  qed
qed

lemma Multiplication_operands_shape:
  "a \<in> set (Multiplication_operands as) \<Longrightarrow> \<not> isValue a \<and> \<not> isMultiplication a"
  by (induction as rule: Multiplication_operands.induct)
    (auto simp: isValue_def isMultiplication_def)

lemma Addition_operands_shape:
  "a \<in> set (Addition_operands as) \<Longrightarrow> \<not> isValue a \<and> \<not> isAddition a"
  by (induction as rule: Addition_operands.induct)
    (auto simp: isValue_def isAddition_def)

lemma Multiplication_split_residue_shape:
  assumes "Multiplication_split n k as = Some (Inr (t, rs))"
  shows "list_all (\<lambda>r. \<not> isMultiplication r) rs"
proof -
  have "\<not> isMultiplication r" if "r \<in> set rs" for r
  proof -
    note res = Multiplication_split_residue [OF assms]
    from that obtain i where i: "i < length rs" and ri: "r = rs ! i"
      by (auto simp: in_set_conv_nth)
    define a where "a = Multiplication_operands as ! i"
    from list_all2_nthD2 [OF res i] obtain m where r: "simplify m k a = Some (Inr r)"
      by (auto simp: a_def ri)
    from list_all2_lengthD [OF res] i have a: "a \<in> set (Multiplication_operands as)"
      by (simp add: a_def)
    from Multiplication_operands_shape [OF a] have "\<forall>ms. a \<noteq> Multiplication ms"
      by (auto simp: isMultiplication_def)
    from simplify_not_Multiplication [OF r this] show ?thesis
      by (cases r) (auto simp: isMultiplication_def)
  qed
  then show ?thesis by (simp add: list_all_iff)
qed

subsection \<open>More fuel\<close>

text \<open>
  A call that has returned or thrown with some fuel does the same with more: the fuel
  decides only whether a run is followed to its end.
\<close>

definition fuel_le :: "'a result \<Rightarrow> 'a result \<Rightarrow> bool" where
  "fuel_le a b \<longleftrightarrow> a = None \<or> a = b"

lemma fuel_le_refl [simp]: "fuel_le a a"
  by (simp add: fuel_le_def)

lemma fuel_le_None [simp]: "fuel_le None b"
  by (simp add: fuel_le_def)

lemma fuel_le_bind:
  assumes "fuel_le m m'" and "\<And>x. fuel_le (f x) (f' x)"
  shows "fuel_le (bind m f) (bind m' f')"
proof (cases m rule: result_cases)
  case Timeout
  then show ?thesis by simp
next
  case (Throws e)
  with assms(1) have "m' = Some (Inl e)" by (simp add: fuel_le_def)
  with Throws show ?thesis by simp
next
  case (Returns x)
  with assms(1) have "m' = Some (Inr x)" by (simp add: fuel_le_def)
  with Returns assms(2) [of x] show ?thesis by simp
qed

lemma fuel_le_mapM:
  assumes "\<And>x. fuel_le (f x) (g x)"
  shows "fuel_le (mapM f xs) (mapM g xs)"
  by (induction xs) (simp_all add: fuel_le_bind assms)

lemma fuel_le_foldM:
  assumes "\<And>s x. fuel_le (f s x) (g s x)"
  shows "fuel_le (foldM f s xs) (foldM g s xs)"
  by (induction xs arbitrary: s) (simp_all add: fuel_le_bind assms)

lemma fuel_le_if:
  assumes "c \<Longrightarrow> fuel_le a a'" and "\<not> c \<Longrightarrow> fuel_le b b'"
  shows "fuel_le (if c then a else b) (if c then a' else b')"
  using assms by simp

lemma fuel_le_case_prod:
  assumes "\<And>a b. fuel_le (f a b) (g a b)"
  shows "fuel_le (case p of (a, b) \<Rightarrow> f a b) (case p of (a, b) \<Rightarrow> g a b)"
  using assms by (cases p) simp

lemma fuel_le_Addition_simplify_arg:
  assumes "\<And>e. fuel_le (simplify n k e) (simplify n' k e)"
  shows "fuel_le (Addition_simplify_arg n k a) (Addition_simplify_arg n' k a)"
  by (cases a) (simp_all add: Addition_simplify_arg_def assms)

lemma fuel_le_Multiplication_simplify_arg:
  assumes "\<And>e. fuel_le (simplify n k e) (simplify n' k e)"
  shows "fuel_le (Multiplication_simplify_arg n k a) (Multiplication_simplify_arg n' k a)"
  by (cases a) (simp_all add: Multiplication_simplify_arg_def assms)

lemma fuel_le_Addition_evaluate:
  assumes "\<And>e. fuel_le (f e) (g e)"
  shows "fuel_le (Addition_evaluate f as) (Addition_evaluate g as)"
  unfolding Addition_evaluate_def
  by (intro fuel_le_bind fuel_le_foldM assms fuel_le_refl)

lemma fuel_le_Multiplication_evaluate:
  assumes "\<And>e. fuel_le (f e) (g e)"
  shows "fuel_le (Multiplication_evaluate f as) (Multiplication_evaluate g as)"
  unfolding Multiplication_evaluate_def
  by (intro fuel_le_bind fuel_le_foldM assms fuel_le_refl)

lemma fuel_le_Addition_group:
  assumes "\<And>e. fuel_le (simplify n k e) (simplify n' k e)"
    and "\<And>as. fuel_le (groupLikeTerms n k as) (groupLikeTerms n' k as)"
  shows "fuel_le (Addition_group n k sa) (Addition_group n' k sa)"
  unfolding Addition_group_def Let_def
  by (intro fuel_le_case_prod fuel_le_bind fuel_le_mapM fuel_le_if assms fuel_le_refl)

lemma fuel_le_Addition_split_step:
  assumes "\<And>e. fuel_le (simplify n k e) (simplify n' k e)"
    and "\<And>as. fuel_le (Addition_split n k as) (Addition_split n' k as)"
  shows "fuel_le (Addition_split_step n k s a) (Addition_split_step n' k s a)"
proof -
  obtain t r where s: "s = (t, r)" by (cases s)
  show ?thesis
    unfolding s
    by (cases a) (simp_all add: Addition_split_step_simps fuel_le_bind assms)
qed

lemma fuel_le_Multiplication_split_step:
  assumes "\<And>e. fuel_le (simplify n k e) (simplify n' k e)"
    and "\<And>as. fuel_le (Multiplication_split n k as) (Multiplication_split n' k as)"
  shows "fuel_le (Multiplication_split_step n k s a) (Multiplication_split_step n' k s a)"
proof -
  obtain t r where s: "s = (t, r)" by (cases s)
  show ?thesis
    unfolding s
    by (cases a) (simp_all add: Multiplication_split_step_simps fuel_le_bind assms)
qed

lemma fuel_le_groupLikeTerms_body:
  assumes "\<And>as. fuel_le (Multiplication_split n k as) (Multiplication_split n' k as)"
  shows "fuel_le (groupLikeTerms (Suc n) k as) (groupLikeTerms (Suc n') k as)"
  unfolding groupLikeTerms.simps
  by (intro fuel_le_bind fuel_le_foldM fuel_le_case_prod fuel_le_if fuel_le_refl)
    (auto split: expr.splits intro!: fuel_le_bind assms)

lemma fuel_step:
  "(\<forall>e. fuel_le (simplify n k e) (simplify (Suc n) k e)) \<and>
   (\<forall>as. fuel_le (Addition_split n k as) (Addition_split (Suc n) k as)) \<and>
   (\<forall>as. fuel_le (Multiplication_split n k as) (Multiplication_split (Suc n) k as)) \<and>
   (\<forall>as. fuel_le (groupLikeTerms n k as) (groupLikeTerms (Suc n) k as))"
proof (induction n)
  case 0
  show ?case by simp
next
  case (Suc n)
  then have s: "\<And>e. fuel_le (simplify n k e) (simplify (Suc n) k e)"
    and a: "\<And>as. fuel_le (Addition_split n k as) (Addition_split (Suc n) k as)"
    and m: "\<And>as. fuel_le (Multiplication_split n k as) (Multiplication_split (Suc n) k as)"
    and g: "\<And>as. fuel_le (groupLikeTerms n k as) (groupLikeTerms (Suc n) k as)"
    by simp_all
  have "fuel_le (simplify (Suc n) k e) (simplify (Suc (Suc n)) k e)" for e
  proof (cases e)
    case (Value v)
    then show ?thesis by simp
  next
    case (Variable x)
    then show ?thesis by simp
  next
    case (Addition as)
    show ?thesis
      unfolding Addition simplify_Addition_unfold
      by (intro fuel_le_bind fuel_le_mapM fuel_le_if fuel_le_refl
          fuel_le_Addition_simplify_arg fuel_le_Addition_evaluate fuel_le_Addition_group s a g)
  next
    case (Multiplication as)
    show ?thesis
      unfolding Multiplication simplify_Multiplication_unfold
      by (intro fuel_le_bind fuel_le_mapM fuel_le_if fuel_le_refl
          fuel_le_Multiplication_simplify_arg fuel_le_Multiplication_evaluate s m)
  qed
  moreover have "fuel_le (Addition_split (Suc n) k as) (Addition_split (Suc (Suc n)) k as)" for as
    unfolding Addition_split_unfold
    by (intro fuel_le_foldM fuel_le_Addition_split_step s a)
  moreover have "fuel_le (Multiplication_split (Suc n) k as) (Multiplication_split (Suc (Suc n)) k as)"
    for as
    unfolding Multiplication_split_unfold
    by (intro fuel_le_foldM fuel_le_Multiplication_split_step s m)
  moreover have "fuel_le (groupLikeTerms (Suc n) k as) (groupLikeTerms (Suc (Suc n)) k as)" for as
    by (intro fuel_le_groupLikeTerms_body m)
  ultimately show ?case by blast
qed

lemma simplify_more_fuel:
  assumes "simplify n k e = Some r"
  shows "simplify (n + m) k e = Some r"
proof (induction m)
  case 0
  from assms show ?case by simp
next
  case (Suc m)
  from fuel_step [of "n + m" k] have "fuel_le (simplify (n + m) k e) (simplify (Suc (n + m)) k e)"
    by blast
  with Suc show ?case by (simp add: fuel_le_def)
qed

lemmas arity_rules = Addition_new_def Multiplication_new_def Function_new_def
  Addition_MAX_ALLOWED_ARGS_def Multiplication_MAX_ALLOWED_ARGS_def

lemmas evaluation_rules = ret_def lift_def arity_rules HashMap_get_def Addition_evaluate_def
  Multiplication_evaluate_def multiply_def plus_sh_def

section \<open>Construction\<close>

text \<open>
  C8. Constructing an Addition or a Multiplication with 0 or 1 children fails with an
  ArityError and yields no object; with 2 to 200 children it succeeds and yields the node
  over exactly these children; with 201 children, or more, it fails with an ArityError.
\<close>

theorem operator_arity:
  "(length as < 2 \<or> 200 < length as \<longrightarrow>
      Addition_new as = Inl ArityError \<and> Multiplication_new as = Inl ArityError) \<and>
   (2 \<le> length as \<and> length as \<le> 200 \<longrightarrow>
      Addition_new as = Inr (Addition as) \<and> Multiplication_new as = Inr (Multiplication as))"
  by (auto simp: arity_rules)

theorem operator_arity_witness:
  "Addition_new [] = Inl ArityError \<and>
   Multiplication_new [Variable ''x''] = Inl ArityError \<and>
   Addition_new [Variable ''x'', Value 1] = Inr (Addition [Variable ''x'', Value 1]) \<and>
   Multiplication_new (replicate 200 (Value 1)) = Inr (Multiplication (replicate 200 (Value 1))) \<and>
   Addition_new (replicate 201 (Value 1)) = Inl ArityError"
  using operator_arity [of "[]"] operator_arity [of "[Variable ''x'']"]
    operator_arity [of "[Variable ''x'', Value 1]"]
    operator_arity [of "replicate 200 (Value 1)"]
    operator_arity [of "replicate 201 (Value 1)"]
  by simp

section \<open>Full numeric reduction\<close>

text \<open>
  On Values only, the sum loop returns the sum of the numbers (exactly, where their
  magnitudes sum to at most \<open>2 ^ 53\<close>), and the product loop, which starts from 0, returns
  0 whatever the factors are.
\<close>

lemma mapM_Values:
  assumes "\<And>v. f (Value v) = ret (Value v)"
  shows "mapM f (map Value vs) = ret (map Value vs)"
  by (induction vs) (simp_all add: assms)

lemma Addition_simplify_arg_Value: "Addition_simplify_arg (Suc n) k (Value v) = ret (Value v)"
  by (simp add: Addition_simplify_arg_def)

lemma Multiplication_simplify_arg_Value:
  "Multiplication_simplify_arg (Suc n) k (Value v) = ret (Value v)"
  by (simp add: Multiplication_simplify_arg_def)

lemma hasUnknowns_Values: "\<not> list_ex (hasUnknowns k) (map Value vs)"
  by (induction vs) simp_all

lemma sum_loop_Values:
  "foldM (\<lambda>sum a. bind (simplify (Suc n) k a) (\<lambda>r. ret (sum + Value_value r))) s (map Value vs) =
     ret (s + sum_list vs)"
  by (induction vs arbitrary: s) (simp_all add: add.assoc)

lemma product_loop_Values:
  "foldM (\<lambda>product a. bind (simplify (Suc n) k a) (\<lambda>r. ret (product * Value_value r))) s
     (map Value vs) = ret (s * prod_list vs)"
  by (induction vs arbitrary: s) (simp_all add: mult.assoc)

lemma Addition_of_constants:
  assumes "2 \<le> length vs" and "length vs \<le> 200" and "(\<Sum>v\<leftarrow>vs. \<bar>v\<bar>) \<le> 2 ^ 53"
  shows "simplify (Suc (Suc n)) k (Addition (map Value vs)) = Some (Inr (Value (sum_list vs)))"
proof -
  from assms(1,2) have new: "Addition_new (map Value vs) = Inr (Addition (map Value vs))"
    by (simp add: arity_rules)
  show ?thesis
    unfolding simplify_Addition_unfold
    by (simp add: mapM_Values [of "Addition_simplify_arg (Suc n) k", OF Addition_simplify_arg_Value]
        lift_def new hasUnknowns_Values Addition_evaluate_def sum_loop_Values)
      (simp add: ret_def)
qed

lemma Multiplication_of_constants:
  assumes "2 \<le> length vs" and "length vs \<le> 200"
  shows "simplify (Suc (Suc n)) k (Multiplication (map Value vs)) = Some (Inr (Value 0))"
proof -
  from assms have new: "Multiplication_new (map Value vs) = Inr (Multiplication (map Value vs))"
    by (simp add: arity_rules)
  show ?thesis
    unfolding simplify_Multiplication_unfold
    by (simp add: mapM_Values [of "Multiplication_simplify_arg (Suc n) k",
          OF Multiplication_simplify_arg_Value]
        lift_def new hasUnknowns_Values Multiplication_evaluate_def product_loop_Values)
      (simp add: ret_def)
qed

text \<open>The known-binding substitution of the spec's examples.\<close>

lemma known_binding_substitution:
  "simplify (Suc (Suc n)) [''x'' \<mapsto> 4] (Addition [Variable ''x'', Value 1]) =
     Some (Inr (Value 5))"
  by (simp add: evaluation_rules)

text \<open>
  C1. For children that are all Values, \<open>Addition(children).simplify({})\<close> is to be the Value
  of their sum and \<open>Multiplication(children).simplify({})\<close> the Value of their product.
  The product loop starts from \<open>product = 0\<close>, so the code returns \<open>Value 0\<close> for the
  factors 2 and 3, where the product is 6.
\<close>

theorem Multiplication_of_constants_is_zero:
  "simplify (Suc (Suc n)) Map.empty (Multiplication [Value 2, Value 3]) = Some (Inr (Value 0)) \<and>
   Value 0 \<noteq> Value (2 * 3)"
  by (simp add: evaluation_rules)

section \<open>The sum rule and the product rule\<close>

text \<open>
  \<open>Addition.derivative\<close> differentiates child by child. \<open>Multiplication.derivative\<close>
  builds one product per factor; in product \<open>i\<close> every position holds factor \<open>i\<close>, and
  position \<open>i\<close> holds its derivative.
\<close>

lemma sequenceE_map_Inr:
  assumes "\<And>x. x \<in> set xs \<Longrightarrow> f x = Inr (g x)"
  shows "sequenceE (map f xs) = Inr (map g xs)"
  using assms by (induction xs) simp_all

lemma Addition_derivative_sum_rule:
  "derivative dleaf variable (Addition as) =
     bindE (sequenceE (map (derivative dleaf variable) as)) Addition_new"
proof -
  have "map (\<lambda>i. derivative dleaf variable (as ! i)) [0..<length as] =
      map (derivative dleaf variable) as"
    by (rule nth_equalityI) simp_all
  then show ?thesis by simp
qed


lemma Multiplication_derivative_form:
  assumes "2 \<le> length as" and "length as \<le> 200"
    and "\<And>i. i < length as \<Longrightarrow> derivative dleaf variable (as ! i) = Inr (d i)"
  shows "derivative dleaf variable (Multiplication as) =
     Inr (Addition (map (\<lambda>i. Multiplication (map (\<lambda>j. if j = i then d i else as ! i)
       [0..<length as])) [0..<length as]))"
proof -
  let ?n = "length as"
  have inner: "bindE (sequenceE (map (\<lambda>j.
             if j = i then derivative dleaf variable (as ! i) else Inr (as ! i)) [0..<?n]))
         multiply =
       Inr (Multiplication (map (\<lambda>j. if j = i then d i else as ! i) [0..<?n]))"
    if "i \<in> set [0..<?n]" for i
  proof -
    from that have i: "i < ?n" by simp
    have "sequenceE (map (\<lambda>j.
             if j = i then derivative dleaf variable (as ! i) else Inr (as ! i)) [0..<?n]) =
        Inr (map (\<lambda>j. if j = i then d i else as ! i) [0..<?n])"
      by (rule sequenceE_map_Inr) (simp add: assms(3) [OF i])
    with assms(1,2) show ?thesis
      by (simp add: multiply_def arity_rules)
  qed
  have "sequenceE (map (\<lambda>i. bindE (sequenceE (map (\<lambda>j.
             if j = i then derivative dleaf variable (as ! i) else Inr (as ! i)) [0..<?n]))
         multiply) [0..<?n]) =
       Inr (map (\<lambda>i. Multiplication (map (\<lambda>j. if j = i then d i else as ! i) [0..<?n]))
         [0..<?n])"
    by (rule sequenceE_map_Inr) (rule inner)
  with assms(1,2) show ?thesis
    by (simp add: plus_sh_def arity_rules)
qed

text \<open>
  With the usual derivative of a leaf (1 for the variable itself, 0 for any other leaf) as
  the parameter, the derivative of \<open>x * y\<close> by \<open>x\<close> that the code returns has the value
  of \<open>x\<close>, where the product rule gives \<open>y\<close>.
\<close>

lemma Multiplication_derivative_value:
  "derivative (\<lambda>variable e. Value (if e = Variable variable then 1 else 0)) ''x''
     (Multiplication [Variable ''x'', Variable ''y'']) = Inr d \<Longrightarrow>
   sem_value env d = env ''x''"
  by (auto simp: evaluation_rules)

text \<open>
  C2. The derivative of a Multiplication is to be the Addition of the terms in which
  factor \<open>i\<close> is replaced by its derivative and every other factor \<open>j\<close> is unchanged. The
  inner loop stores \<open>args[i]\<close> at every position \<open>j \<noteq> i\<close>, so for the factors \<open>x\<close> and
  \<open>y\<close> the code returns the sum of \<open>x' * x\<close> and \<open>y * y'\<close>, where the product rule has
  \<open>x' * y\<close> and \<open>x * y'\<close>.
\<close>

theorem Multiplication_derivative_repeats_factor:
  "derivative dleaf ''x'' (Multiplication [Variable ''x'', Variable ''y'']) =
     Inr (Addition
       [Multiplication [dleaf ''x'' (Variable ''x''), Variable ''x''],
        Multiplication [Variable ''y'', dleaf ''x'' (Variable ''y'')]]) \<and>
   Multiplication [dleaf ''x'' (Variable ''x''), Variable ''x''] \<noteq>
     Multiplication [dleaf ''x'' (Variable ''x''), Variable ''y'']"
  by (simp add: evaluation_rules)

section \<open>Sums that leave one term\<close>

text \<open>
  Where two terms remain the constructor accepts them: the zero total is left out, and
  like terms are collected into one product.
\<close>

lemma Addition_identity_elision_two_terms:
  "simplify (Suc (Suc (Suc (Suc n)))) Map.empty
     (Addition [Variable ''x'', Variable ''y'', Value 0]) =
     Some (Inr (Addition [Variable ''x'', Variable ''y'']))"
  by (simp add: evaluation_rules)

lemma Addition_like_terms_two_terms:
  "simplify (Suc (Suc (Suc (Suc (Suc n))))) Map.empty
     (Addition [Variable ''x'', Variable ''x'', Variable ''x'', Variable ''y'']) =
     Some (Inr (Addition [Multiplication [Value 3, Variable ''x''], Variable ''y'']))"
  by (simp add: evaluation_rules)

text \<open>
  C3. \<open>Addition([Variable("x"), Constant(0)]).simplify({})\<close> is to return an expression
  equal in value to \<open>Variable("x")\<close>. The zero total is indeed left out, but the one term
  that remains is handed to the constructor of Addition, which rejects a list of one
  child: the call throws an ArityError and returns nothing.
\<close>

theorem Addition_identity_elision_throws:
  "simplify (Suc (Suc (Suc n))) Map.empty (Addition [Variable ''x'', Value 0]) =
     Some (Inl ArityError) \<and>
   Addition_split (Suc (Suc n)) Map.empty [Variable ''x'', Value 0] =
     Some (Inr (0, [Variable ''x''])) \<and>
   Addition_new [Variable ''x''] = Inl ArityError"
  by (simp add: evaluation_rules)

text \<open>
  C4. \<open>Addition([Variable("x"), Variable("x"), Variable("x")]).simplify({})\<close> is to be equal
  in value to \<open>Multiplication([Constant(3), Variable("x")])\<close>. The three terms are grouped
  into one product, and this single term is again handed to the constructor of Addition:
  the call throws an ArityError.
\<close>

theorem Addition_like_terms_throws:
  "simplify (Suc (Suc (Suc (Suc n)))) Map.empty
     (Addition [Variable ''x'', Variable ''x'', Variable ''x'']) = Some (Inl ArityError) \<and>
   simplify (Suc (Suc (Suc n))) Map.empty (Multiplication [Value 3, Variable ''x'']) =
     Some (Inr (Multiplication [Variable ''x'', Value 3])) \<and>
   Addition_new [Multiplication [Variable ''x'', Value 3]] = Inl ArityError"
  by (simp add: evaluation_rules)

section \<open>The full-evaluation branch\<close>

text \<open>
  The branch taken when \<open>hasUnknowns\<close> reports false for the rebuilt node reads \<open>.value\<close>
  through a cast that is erased at run time; the source has no check there and no error
  of its own. On no input does the read meet a node that is not a Value: whenever the
  rebuilt node has no unknowns, every child whose simplification returns yields a Value.
  So C9, which says what is to happen if the read ever meets another node, is about a
  situation that no call of \<open>simplify\<close> reaches.
\<close>

lemma full_evaluation_children_are_Values:
  assumes "\<not> hasUnknowns k simplNode" and "a \<in> set (args simplNode)"
    and "simplify n k a = Some (Inr r)"
  shows "\<exists>v. r = Value v"
proof -
  from assms(1,2) have "\<not> hasUnknowns k a"
    by (cases simplNode) (auto simp: list_ex_iff)
  from known_simplify_Value [OF this assms(3)] show ?thesis .
qed

lemma full_evaluation_children_example:
  "\<not> hasUnknowns Map.empty (Addition [Addition [Value 1, Value 2], Value 3]) \<and>
   simplify (Suc (Suc 0)) Map.empty (Addition [Value 1, Value 2]) = Some (Inr (Value 3))"
  by (simp add: evaluation_rules)

section \<open>Splitting\<close>



text \<open>
  C10, as the code has it. The residue of \<open>Addition.split\<close> is, in order, what \<open>simplify\<close>
  returns for the children that are neither Value nor Addition (nested Additions
  flattened); the residue of \<open>Multiplication.split\<close> is the same for the children that
  are neither Value nor Multiplication, and holds no Multiplication node.
\<close>

theorem split_residue_simplified:
  "(Addition_split n k as = Some (Inr (t, rs)) \<longrightarrow>
      list_all2 (\<lambda>a r. \<exists>m. simplify m k a = Some (Inr r)) (Addition_operands as) rs) \<and>
   (Multiplication_split n k as = Some (Inr (t, rs)) \<longrightarrow>
      list_all2 (\<lambda>a r. \<exists>m. simplify m k a = Some (Inr r)) (Multiplication_operands as) rs \<and>
      list_all (\<lambda>r. \<not> isMultiplication r) rs)"
  using Addition_split_residue Multiplication_split_residue Multiplication_split_residue_shape
  by blast

theorem split_residue_simplified_witness:
  "Addition_split 3 Map.empty [Value 2, Addition [Variable ''x'', Value 3], Variable ''y''] =
     Some (Inr (5, [Variable ''x'', Variable ''y''])) \<and>
   list_all2 (\<lambda>a r. \<exists>m. simplify m Map.empty a = Some (Inr r))
     (Addition_operands [Value 2, Addition [Variable ''x'', Value 3], Variable ''y''])
     [Variable ''x'', Variable ''y''] \<and>
   Multiplication_split 3 Map.empty
       [Value 2, Multiplication [Variable ''x'', Value 3], Variable ''y''] =
     Some (Inr (6, [Variable ''x'', Variable ''y''])) \<and>
   list_all2 (\<lambda>a r. \<exists>m. simplify m Map.empty a = Some (Inr r))
     (Multiplication_operands [Value 2, Multiplication [Variable ''x'', Value 3], Variable ''y''])
     [Variable ''x'', Variable ''y''] \<and>
   list_all (\<lambda>r. \<not> isMultiplication r) [Variable ''x'', Variable ''y'']"
proof -
  have 1: "Addition_split 3 Map.empty
      [Value 2, Addition [Variable ''x'', Value 3], Variable ''y''] =
     Some (Inr (5, [Variable ''x'', Variable ''y'']))"
    by (simp add: eval_nat_numeral evaluation_rules)
  have 2: "Multiplication_split 3 Map.empty
       [Value 2, Multiplication [Variable ''x'', Value 3], Variable ''y''] =
     Some (Inr (6, [Variable ''x'', Variable ''y'']))"
    by (simp add: eval_nat_numeral evaluation_rules)
  from 1 2
    split_residue_simplified [of 3 Map.empty
      "[Value 2, Addition [Variable ''x'', Value 3], Variable ''y'']" 5
      "[Variable ''x'', Variable ''y'']"]
    split_residue_simplified [of 3 Map.empty
      "[Value 2, Multiplication [Variable ''x'', Value 3], Variable ''y'']" 6
      "[Variable ''x'', Variable ''y'']"]
  show ?thesis by blast
qed

text \<open>
  C10, as stated, fails: what \<open>simplify\<close> returns for such a child can be a Value (a
  product annihilated by zero, a sum that evaluates fully) or an Addition (returned bare
  by \<open>Multiplication.simplify\<close> when the numeric factor is 1), and it is stored as it is.
\<close>

theorem split_residue_not_clean:
  "Addition_split 5 Map.empty
     [Addition [Multiplication [Variable ''x'', Value 0], Variable ''y''], Variable ''z''] =
     Some (Inr (0, [Value 0, Variable ''y'', Variable ''z''])) \<and>
   list_ex isValue [Value 0, Variable ''y'', Variable ''z''] \<and>
   Addition_split 6 Map.empty
     [Multiplication [Addition [Variable ''x'', Variable ''y''], Value 1], Variable ''z''] =
     Some (Inr (0, [Addition [Variable ''x'', Variable ''y''], Variable ''z''])) \<and>
   list_ex isAddition [Addition [Variable ''x'', Variable ''y''], Variable ''z''] \<and>
   Multiplication_split 6 Map.empty
     [Multiplication [Addition [Multiplication [Variable ''x'', Value 0], Value 1],
        Variable ''y''], Variable ''z''] =
     Some (Inr (1, [Value 1, Variable ''y'', Variable ''z''])) \<and>
   list_ex isValue [Value 1, Variable ''y'', Variable ''z'']"
  by (simp add: eval_nat_numeral evaluation_rules isValue_def isAddition_def)

section \<open>Simplifying twice\<close>

text \<open>
  C5. \<open>e.simplify(k).simplify(k)\<close> is to be semantically equal to \<open>e.simplify(k)\<close>. For
  the product \<open>((x * 0 + 1) * 2) * 3\<close> the first call returns the product of the Values 1
  and 6, whose value is 6; the second call takes the full-evaluation branch, whose loop
  starts from \<open>product = 0\<close>, and returns the Value 0.
\<close>

theorem simplify_not_idempotent:
  "simplify (Suc (Suc (Suc (Suc (Suc (Suc (Suc n))))))) Map.empty
     (Multiplication [Multiplication [Addition [Multiplication [Variable ''x'', Value 0], Value 1],
        Value 2], Value 3]) =
     Some (Inr (Multiplication [Value 1, Value 6])) \<and>
   simplify (Suc (Suc (Suc (Suc (Suc (Suc (Suc n))))))) Map.empty (Multiplication [Value 1, Value 6]) =
     Some (Inr (Value 0)) \<and>
   sem_value env (Multiplication [Value 1, Value 6]) = 6 \<and>
   sem_value env (Value 0) = 0"
  by (simp add: evaluation_rules)

section \<open>Multiplication by zero\<close>

text \<open>
  A total of 0 makes \<open>Multiplication.simplify\<close> return the Value 0 whatever the residue is.
  So the product of a Variable and 0 is the Value 0, whether the Variable is known or not,
  and the product of any expression and 0 is the Value 0 whenever the call returns.
\<close>

lemma Multiplication_finish_zero: "Multiplication_finish (0, exprs) = ret (Value 0)"
  by (simp add: Multiplication_finish_def)

lemma Multiplication_by_zero_Variable:
  "simplify (Suc (Suc (Suc n))) k (Multiplication [Variable x, Value 0]) = Some (Inr (Value 0))"
  by (cases "k x") (simp_all add: evaluation_rules)

lemma Multiplication_split_zero:
  assumes "Multiplication_split n k (as @ [Value 0]) = Some (Inr (t, rs))"
  shows "t = 0"
proof (cases n)
  case 0
  with assms show ?thesis by simp
next
  case (Suc n')
  have loop: "foldM (Multiplication_split_step n' k) s (as @ [Value 0]) = Some (Inr (t, rs)) \<Longrightarrow> t = 0"
    for s
  proof (induction as arbitrary: s)
    case Nil
    obtain t0 r0 where "s = (t0, r0)" by (cases s)
    with Nil show ?case by (simp add: Multiplication_split_step_simps ret_def)
  next
    case (Cons a as)
    from Cons.prems obtain s' where "foldM (Multiplication_split_step n' k) s' (as @ [Value 0]) = Some (Inr (t, rs))"
      by (auto elim: bind_InrE)
    then show ?case by (rule Cons.IH)
  qed
  from assms [unfolded Suc Multiplication_split_unfold] show ?thesis by (rule loop)
qed

lemma Multiplication_by_zero_partial:
  assumes "simplify n k (Multiplication [x, Value 0]) = Some (Inr r)"
  shows "r = Value 0"
proof (cases n)
  case 0
  with assms show ?thesis by simp
next
  case (Suc n')
  from assms [unfolded Suc simplify_Multiplication_unfold]
  obtain simplArgs a where
    m: "mapM (Multiplication_simplify_arg n' k) [x, Value 0] = Some (Inr simplArgs)" and
    a: "lift (Multiplication_new simplArgs) = Some (Inr a)" and
    rest: "(if \<not> hasUnknowns k a then Multiplication_evaluate (simplify n' k) simplArgs
            else bind (Multiplication_split n' k (args a)) Multiplication_finish) = Some (Inr r)"
    by (elim bind_InrE)
  from a have a': "a = Multiplication simplArgs" by (simp add: lift_def Multiplication_new_Inr)
  from m obtain x' where x': "simplArgs = [x', Value 0]"
    by (cases n') (auto simp: Multiplication_simplify_arg_def bind_Inr_iff ret_def)
  show ?thesis
  proof (cases "hasUnknowns k a")
    case False
    with rest have "Multiplication_evaluate (simplify n' k) [x', Value 0] = Some (Inr r)"
      by (simp add: x')
    then show ?thesis
      by (auto simp: Multiplication_evaluate_def bind_Inr_iff ret_def)
  next
    case True
    with rest obtain t rs where
      s: "Multiplication_split n' k ([x'] @ [Value 0]) = Some (Inr (t, rs))" and
      f: "Multiplication_finish (t, rs) = Some (Inr r)"
      by (auto elim!: bind_InrE simp: a' x')
    from Multiplication_split_zero [OF s] f show ?thesis
      by (simp add: Multiplication_finish_zero ret_def)
  qed
qed

text \<open>
  C7. \<open>Multiplication([x, Constant(0)]).simplify(knowns)\<close> is to be \<open>Constant(0)\<close> for every
  expression \<open>x\<close>. For \<open>x = Addition([Variable("y"), Constant(0)])\<close> the child is simplified
  first, and its simplification throws an ArityError (the sum leaves one term).
\<close>

theorem Multiplication_by_zero_throws:
  "simplify (Suc (Suc (Suc (Suc n)))) Map.empty
     (Multiplication [Addition [Variable ''y'', Value 0], Value 0]) = Some (Inl ArityError)"
  by (simp add: evaluation_rules)

end
